theory Spec2Isabelle
  imports Complex_Main "HOL-Library.Sublist"
begin

section \<open>Strings\<close>

text \<open>
  A JavaScript string is a sequence of UTF-16 code units. The model is \<^typ>\<open>string\<close>, a
  list of 8-bit characters read as the code units U+0000 to U+00FF, so it covers the
  strings all of whose code units are below 256 (HTTP header names are ASCII tokens and
  header values are byte strings). On that range \<open>String.prototype.toLowerCase\<close> maps
  A to Z and the Latin-1 capitals U+00C0 to U+00DE, the multiplication sign U+00D7
  apart, to the code unit 32 above, and leaves every other code unit alone.
\<close>

definition toLowerCase_unit :: "char \<Rightarrow> char" where
  "toLowerCase_unit c =
     (let n = (of_char c :: nat) in
      if (65 \<le> n \<and> n \<le> 90) \<or> (192 \<le> n \<and> n \<le> 222 \<and> n \<noteq> 215)
      then char_of (n + 32) else c)"

definition toLowerCase :: "string \<Rightarrow> string" where
  "toLowerCase s = map toLowerCase_unit s"

text \<open>\<open>s.includes(t)\<close>: some position of \<open>s\<close> starts an occurrence of \<open>t\<close>.\<close>

fun includes_str :: "string \<Rightarrow> string \<Rightarrow> bool" where
  "includes_str [] t = (t = [])"
| "includes_str (c # cs) t = (prefix t (c # cs) \<or> includes_str cs t)"

section \<open>Header lookup\<close>

text \<open>
  \<open>Record<string, string>\<close> is read through \<open>Object.entries\<close> only, so the model of a
  header object is the list of its entries in iteration order.
\<close>

type_synonym HeaderMap = "(string \<times> string) list"

text \<open>
  \<^verbatim>\<open>
  function findHeader(headers, name) {
    const lower = name.toLowerCase();
    for (const [k, v] of Object.entries(headers)) {
      if (k.toLowerCase() === lower) return v;
    }
    return undefined;
  }
  \<close>
  \<open>undefined\<close> is \<open>None\<close>.
\<close>

fun findHeader_loop :: "HeaderMap \<Rightarrow> string \<Rightarrow> string option" where
  "findHeader_loop [] lower = None"
| "findHeader_loop ((k, v) # rest) lower =
     (if toLowerCase k = lower then Some v else findHeader_loop rest lower)"

definition findHeader :: "HeaderMap \<Rightarrow> string \<Rightarrow> string option" where
  "findHeader headers name = (let lower = toLowerCase name in findHeader_loop headers lower)"

section \<open>Grades\<close>

text \<open>
  \<^verbatim>\<open>
  function gradeFromScore(score: number): string {
    if (score >= 90) return "A";
    if (score >= 70) return "B";
    if (score >= 50) return "C";
    return "F";
  }
  \<close>
  Every score the component passes in is the result of \<open>Math.round\<close>, an integer.
\<close>

definition gradeFromScore :: "int \<Rightarrow> string" where
  "gradeFromScore score =
     (if score \<ge> 90 then ''A''
      else if score \<ge> 70 then ''B''
      else if score \<ge> 50 then ''C''
      else ''F'')"

section \<open>Truthiness\<close>

text \<open>
  A value used as a condition: \<open>undefined\<close> and the empty string are falsy, every other
  string is truthy. \<open>a || b\<close> is \<open>a\<close> when \<open>a\<close> is truthy and \<open>b\<close> otherwise.
\<close>

definition falsy :: "string option \<Rightarrow> bool" where
  "falsy v = (case v of None \<Rightarrow> True | Some s \<Rightarrow> s = [])"

definition js_or :: "string option \<Rightarrow> string option \<Rightarrow> string option" where
  "js_or a b = (if falsy a then b else a)"

section \<open>The max-age attribute\<close>

text \<open>
  \<open>val.match(/max-age=(\d+)/)?.[1]\<close>: the regular expression is tried at each start
  position from the left; at a position it matches the literal \<open>max-age=\<close> and then the
  longest run of ASCII digits, which must not be empty. The result is the capture group of
  the first match, \<open>undefined\<close> when no position matches.
\<close>

definition isDigit :: "char \<Rightarrow> bool" where
  "isDigit c = (let n = (of_char c :: nat) in 48 \<le> n \<and> n \<le> 57)"

fun match_max_age :: "string \<Rightarrow> string option" where
  "match_max_age [] = None"
| "match_max_age (c # cs) =
     (let digits = takeWhile isDigit (drop 8 (c # cs)) in
      if take 8 (c # cs) = ''max-age='' \<and> digits \<noteq> [] then Some digits
      else match_max_age cs)"

text \<open>The same, position by position: the pattern matches at position \<open>i\<close> of \<open>s\<close>.\<close>

definition max_age_at :: "string \<Rightarrow> nat \<Rightarrow> bool" where
  "max_age_at s i = (take 8 (drop i s) = ''max-age='' \<and> takeWhile isDigit (drop (i + 8) s) \<noteq> [])"

text \<open>
  \<open>parseInt\<close> is only applied to a non-empty string of ASCII digits (the capture group or
  the literal \<open>"0"\<close>), where it is the decimal value. The model keeps the exact natural
  number; the double that JavaScript computes for a value above \<open>2^53\<close> is its rounding,
  which is on the same side of the exactly representable 31536000. On a digit the
  subtraction \<open>of_char c - 48\<close> is the digit's value.
\<close>

definition parseInt :: "string \<Rightarrow> nat" where
  "parseInt s = foldl (\<lambda>n c. 10 * n + (of_char c - 48)) 0 s"

text \<open>\<open>parseInt(val.match(/max-age=(\d+)/)?.[1] || "0")\<close>\<close>

definition max_age_of :: "string \<Rightarrow> nat" where
  "max_age_of val =
     parseInt (case js_or (match_max_age val) (Some ''0'') of Some d \<Rightarrow> d | None \<Rightarrow> ''0'')"

text \<open>The decimal text of a natural number, as a template literal prints it.\<close>

fun Number_toString :: "nat \<Rightarrow> string" where
  "Number_toString n =
     (if n < 10 then [char_of (48 + n)]
      else Number_toString (n div 10) @ [char_of (48 + n mod 10)])"

declare Number_toString.simps [simp del]

section \<open>The check catalog\<close>

datatype Severity = critical | high | medium | low

text \<open>
  The result of a check, \<open>{ pass: boolean; value?: string; detail?: string }\<close>. The
  field \<open>value\<close> is \<open>value_field\<close> here; an optional field that is left out or
  \<open>undefined\<close> is \<open>None\<close>.
\<close>

record Outcome =
  pass :: bool
  value_field :: "string option"
  detail :: "string option"

record SecurityCheck =
  name :: string
  header :: string
  description :: string
  severity :: Severity
  check :: "HeaderMap \<Rightarrow> string \<Rightarrow> Outcome"

text \<open>
  The source's literals hold the em dash U+2014, which is beyond the 8-bit code units of
  the model; in these texts, which are only ever output, it is written as its three UTF-8
  bytes.
\<close>

definition em_dash :: string where
  "em_dash = [CHR 0xE2, CHR 0x80, CHR 0x94]"

text \<open>\<open>val.slice(0, 80) + (val.length > 80 ? "..." : "")\<close>\<close>

definition slice80 :: "string \<Rightarrow> string" where
  "slice80 val = take 80 val @ (if length val > 80 then ''...'' else [])"

definition check_HTTPS :: "HeaderMap \<Rightarrow> string \<Rightarrow> Outcome" where
  "check_HTTPS h html =
     \<lparr>pass = True, value_field = None, detail = Some ''Checked via crawl URL''\<rparr>"

definition check_Strict_Transport_Security :: "HeaderMap \<Rightarrow> string \<Rightarrow> Outcome" where
  "check_Strict_Transport_Security h html =
     (let missing = \<lparr>pass = False, value_field = None,
            detail = Some (''Header missing '' @ em_dash @ '' browsers can connect over HTTP'')\<rparr>
      in case findHeader h ''strict-transport-security'' of
           None \<Rightarrow> missing
         | Some val \<Rightarrow>
             if val = [] then missing
             else
               let maxAge = max_age_of val
               in if maxAge < 31536000
                  then \<lparr>pass = True, value_field = Some val,
                        detail = Some (''max-age='' @ Number_toString maxAge
                                       @ '' (recommend >= 31536000)'')\<rparr>
                  else \<lparr>pass = True, value_field = Some val, detail = None\<rparr>)"

definition check_Content_Security_Policy :: "HeaderMap \<Rightarrow> string \<Rightarrow> Outcome" where
  "check_Content_Security_Policy h html =
     (let missing = \<lparr>pass = False, value_field = None,
            detail = Some (''No CSP header '' @ em_dash
                           @ '' site is vulnerable to XSS injection'')\<rparr>
      in case findHeader h ''content-security-policy'' of
           None \<Rightarrow> missing
         | Some val \<Rightarrow>
             if val = [] then missing
             else
               let hasUnsafe = (includes_str val ''unsafe-inline'' \<or> includes_str val ''unsafe-eval'')
               in \<lparr>pass = True, value_field = Some (slice80 val),
                   detail = (if hasUnsafe
                             then Some ''Contains unsafe-inline or unsafe-eval directives''
                             else None)\<rparr>)"

definition check_X_Frame_Options :: "HeaderMap \<Rightarrow> string \<Rightarrow> Outcome" where
  "check_X_Frame_Options h html =
     (let missing = \<lparr>pass = False, value_field = None,
            detail = Some (''Missing '' @ em_dash
                           @ '' page can be embedded in iframes (clickjacking risk)'')\<rparr>
      in case findHeader h ''x-frame-options'' of
           None \<Rightarrow> missing
         | Some val \<Rightarrow>
             if val = [] then missing
             else \<lparr>pass = True, value_field = Some val, detail = None\<rparr>)"

definition check_X_Content_Type_Options :: "HeaderMap \<Rightarrow> string \<Rightarrow> Outcome" where
  "check_X_Content_Type_Options h html =
     (let missing = \<lparr>pass = False, value_field = None,
            detail = Some (''Missing '' @ em_dash @ '' browser may MIME-sniff responses'')\<rparr>
      in case findHeader h ''x-content-type-options'' of
           None \<Rightarrow> missing
         | Some val \<Rightarrow>
             if val = [] then missing
             else \<lparr>pass = (toLowerCase val = ''nosniff''), value_field = Some val,
                   detail = None\<rparr>)"

definition check_Referrer_Policy :: "HeaderMap \<Rightarrow> string \<Rightarrow> Outcome" where
  "check_Referrer_Policy h html =
     (let missing = \<lparr>pass = False, value_field = None,
            detail = Some (''Missing '' @ em_dash
                           @ '' full URL may leak in Referer header'')\<rparr>
      in case findHeader h ''referrer-policy'' of
           None \<Rightarrow> missing
         | Some val \<Rightarrow>
             if val = [] then missing
             else \<lparr>pass = True, value_field = Some val, detail = None\<rparr>)"

definition check_Permissions_Policy :: "HeaderMap \<Rightarrow> string \<Rightarrow> Outcome" where
  "check_Permissions_Policy h html =
     (let missing = \<lparr>pass = False, value_field = None,
            detail = Some (''Missing '' @ em_dash
                           @ '' all browser features are allowed by default'')\<rparr>
      in case js_or (findHeader h ''permissions-policy'') (findHeader h ''feature-policy'') of
           None \<Rightarrow> missing
         | Some val \<Rightarrow>
             if val = [] then missing
             else \<lparr>pass = True, value_field = Some (slice80 val), detail = None\<rparr>)"

definition check_X_XSS_Protection :: "HeaderMap \<Rightarrow> string \<Rightarrow> Outcome" where
  "check_X_XSS_Protection h html =
     (let missing = \<lparr>pass = False, value_field = None,
            detail = Some ''Missing (note: modern browsers use CSP instead)''\<rparr>
      in case findHeader h ''x-xss-protection'' of
           None \<Rightarrow> missing
         | Some val \<Rightarrow>
             if val = [] then missing
             else \<lparr>pass = True, value_field = Some val, detail = None\<rparr>)"

definition check_Cross_Origin_Opener_Policy :: "HeaderMap \<Rightarrow> string \<Rightarrow> Outcome" where
  "check_Cross_Origin_Opener_Policy h html =
     (let missing = \<lparr>pass = False, value_field = None,
            detail = Some (''Missing '' @ em_dash
                           @ '' window can be referenced by cross-origin pages'')\<rparr>
      in case findHeader h ''cross-origin-opener-policy'' of
           None \<Rightarrow> missing
         | Some val \<Rightarrow>
             if val = [] then missing
             else \<lparr>pass = True, value_field = Some val, detail = None\<rparr>)"

definition check_Cross_Origin_Resource_Policy :: "HeaderMap \<Rightarrow> string \<Rightarrow> Outcome" where
  "check_Cross_Origin_Resource_Policy h html =
     (let missing = \<lparr>pass = False, value_field = None, detail = Some ''Missing''\<rparr>
      in case findHeader h ''cross-origin-resource-policy'' of
           None \<Rightarrow> missing
         | Some val \<Rightarrow>
             if val = [] then missing
             else \<lparr>pass = True, value_field = Some val, detail = None\<rparr>)"

definition CHECKS :: "SecurityCheck list" where
  "CHECKS =
    [\<lparr>name = ''HTTPS'', header = ''url'',
      description = ''Site uses HTTPS encryption'',
      severity = critical, check = check_HTTPS\<rparr>,
     \<lparr>name = ''Strict-Transport-Security'', header = ''strict-transport-security'',
      description = ''Forces HTTPS connections via HSTS'',
      severity = critical, check = check_Strict_Transport_Security\<rparr>,
     \<lparr>name = ''Content-Security-Policy'', header = ''content-security-policy'',
      description = ''Mitigates XSS and injection attacks'',
      severity = critical, check = check_Content_Security_Policy\<rparr>,
     \<lparr>name = ''X-Frame-Options'', header = ''x-frame-options'',
      description = ''Prevents clickjacking by controlling iframe embedding'',
      severity = high, check = check_X_Frame_Options\<rparr>,
     \<lparr>name = ''X-Content-Type-Options'', header = ''x-content-type-options'',
      description = ''Prevents MIME type sniffing'',
      severity = medium, check = check_X_Content_Type_Options\<rparr>,
     \<lparr>name = ''Referrer-Policy'', header = ''referrer-policy'',
      description = ''Controls how much referrer info is sent'',
      severity = medium, check = check_Referrer_Policy\<rparr>,
     \<lparr>name = ''Permissions-Policy'', header = ''permissions-policy'',
      description = ''Controls browser feature access (camera, mic, geolocation)'',
      severity = medium, check = check_Permissions_Policy\<rparr>,
     \<lparr>name = ''X-XSS-Protection'', header = ''x-xss-protection'',
      description = ''Legacy XSS filter (deprecated but still checked)'',
      severity = low, check = check_X_XSS_Protection\<rparr>,
     \<lparr>name = ''Cross-Origin-Opener-Policy'', header = ''cross-origin-opener-policy'',
      description = ''Isolates browsing context from cross-origin popups'',
      severity = low, check = check_Cross_Origin_Opener_Policy\<rparr>,
     \<lparr>name = ''Cross-Origin-Resource-Policy'', header = ''cross-origin-resource-policy'',
      description = ''Prevents resources from being loaded cross-origin'',
      severity = low, check = check_Cross_Origin_Resource_Policy\<rparr>]"

section \<open>Scoring and aggregation\<close>

text \<open>
  The per-page part of the \<open>results\<close> memo of \<open>Scanner\<close>:
  \<^verbatim>\<open>
  const checks = CHECKS.map((check) => ({ check, result: check.check(headers, html) }));
  const passCount = checks.filter((c) => c.result.pass).length;
  const failCount = checks.filter((c) => !c.result.pass).length;
  const weights = { critical: 30, high: 20, medium: 15, low: 10 };
  let totalWeight = 0;
  let earnedWeight = 0;
  for (const c of checks) {
    const w = weights[c.check.severity];
    totalWeight += w;
    if (c.result.pass) earnedWeight += w;
  }
  const score = totalWeight > 0 ? Math.round((earnedWeight / totalWeight) * 100) : 0;
  \<close>
\<close>

record CheckResult =
  c_check :: SecurityCheck
  c_result :: Outcome

record PageResult =
  url :: string
  headers :: HeaderMap
  score :: int
  checks :: "CheckResult list"
  passCount :: nat
  failCount :: nat

definition run_checks :: "HeaderMap \<Rightarrow> string \<Rightarrow> CheckResult list" where
  "run_checks hs html = map (\<lambda>chk. \<lparr>c_check = chk, c_result = check chk hs html\<rparr>) CHECKS"

definition weights :: "Severity \<Rightarrow> int" where
  "weights s = (case s of critical \<Rightarrow> 30 | high \<Rightarrow> 20 | medium \<Rightarrow> 15 | low \<Rightarrow> 10)"

text \<open>The weight loop, from the state \<open>(totalWeight, earnedWeight)\<close> to the state after it.\<close>

fun weight_loop :: "CheckResult list \<Rightarrow> int \<times> int \<Rightarrow> int \<times> int" where
  "weight_loop [] (totalWeight, earnedWeight) = (totalWeight, earnedWeight)"
| "weight_loop (c # cs) (totalWeight, earnedWeight) =
     (let w = weights (severity (c_check c))
      in weight_loop cs
           (totalWeight + w, if pass (c_result c) then earnedWeight + w else earnedWeight))"

text \<open>
  \<open>Math.round\<close> gives the integer nearest to its argument, the larger one at a tie.
\<close>

definition Math_round :: "real \<Rightarrow> int" where
  "Math_round x = \<lfloor>x + 1 / 2\<rfloor>"

text \<open>
  JavaScript numbers are IEEE 754 doubles. The weights and their sums are small integers,
  which doubles hold exactly; the quotient and the product are each rounded to a double.
  That rounding is the parameter \<open>fl\<close> of the model. \<open>double_rounding fl\<close> states of it what
  round-to-nearest guarantees on the normal range of doubles: zero is exact and the
  relative error is at most \<open>2^-53\<close>.
\<close>

definition double_rounding :: "(real \<Rightarrow> real) \<Rightarrow> bool" where
  "double_rounding fl =
     (fl 0 = 0 \<and>
      (\<forall>x. 1 / 2 ^ 1022 \<le> \<bar>x\<bar> \<and> \<bar>x\<bar> \<le> 2 ^ 1023 \<longrightarrow> \<bar>fl x - x\<bar> \<le> \<bar>x\<bar> / 2 ^ 53))"

text \<open>Exact arithmetic: the rounding that changes nothing.\<close>

definition exact :: "real \<Rightarrow> real" where
  "exact x = x"

definition weighted_score :: "(real \<Rightarrow> real) \<Rightarrow> CheckResult list \<Rightarrow> int" where
  "weighted_score fl cs =
     (case weight_loop cs (0, 0) of
        (totalWeight, earnedWeight) \<Rightarrow>
          if totalWeight > 0
          then Math_round (fl (fl (real_of_int earnedWeight / real_of_int totalWeight) * 100))
          else 0)"

definition page_result :: "(real \<Rightarrow> real) \<Rightarrow> string \<Rightarrow> HeaderMap \<Rightarrow> string \<Rightarrow> PageResult" where
  "page_result fl page_url hs html =
     (let cs = run_checks hs html
      in \<lparr>url = page_url, headers = hs, score = weighted_score fl cs, checks = cs,
          passCount = length (filter (\<lambda>c. pass (c_result c)) cs),
          failCount = length (filter (\<lambda>c. \<not> pass (c_result c)) cs)\<rparr>)"

text \<open>
  The crawler's records are untyped (\<open>any[]\<close>): an entry may be \<open>null\<close> or \<open>undefined\<close>
  (\<open>None\<close>), and each of its fields may be missing (\<open>None\<close>).
  \<^verbatim>\<open>
  if (!data?.length) return [];
  const items: PageResult[] = [];
  for (const page of data) {
    if (!page?.url) continue;
    const headers: Record<string, string> = page.headers || {};
    const html = page.content || "";
    ...
    items.push({ url: page.url, headers, score, checks, passCount, failCount });
  }
  return items;
  \<close>
\<close>

record Page =
  page_url :: "string option"
  page_headers :: "HeaderMap option"
  page_content :: "string option"

fun results_loop :: "(real \<Rightarrow> real) \<Rightarrow> Page option list \<Rightarrow> PageResult list" where
  "results_loop fl [] = []"
| "results_loop fl (None # rest) = results_loop fl rest"
| "results_loop fl (Some page # rest) =
     (case page_url page of
        None \<Rightarrow> results_loop fl rest
      | Some u \<Rightarrow>
          if u = [] then results_loop fl rest
          else
            let hs = (case page_headers page of None \<Rightarrow> [] | Some h \<Rightarrow> h);
                html = (case js_or (page_content page) (Some []) of None \<Rightarrow> [] | Some s \<Rightarrow> s)
            in page_result fl u hs html # results_loop fl rest)"

definition results :: "(real \<Rightarrow> real) \<Rightarrow> Page option list option \<Rightarrow> PageResult list" where
  "results fl data =
     (case data of
        None \<Rightarrow> []
      | Some pages \<Rightarrow> if length pages = 0 then [] else results_loop fl pages)"

section \<open>The path shown for a page\<close>

text \<open>
  \<^verbatim>\<open>
  let path = r.url; try { path = new URL(r.url).pathname; } catch {}
  \<close>
  \<open>new URL\<close> is the platform's URL parser, not code of this repository: it is the
  parameter \<open>new_URL\<close>, which either throws (\<open>Inl\<close>) or gives a URL record (\<open>Inr\<close>). A
  statement is modelled by its completion: \<open>Inl\<close> an exception that leaves it, \<open>Inr\<close> the
  state (here the variable \<open>path\<close>) after it.
\<close>

datatype exn = TypeError string

record URL =
  pathname :: string

definition try_catch :: "(exn + 'a) \<Rightarrow> (exn \<Rightarrow> exn + 'a) \<Rightarrow> exn + 'a" where
  "try_catch body handler = (case body of Inl e \<Rightarrow> handler e | Inr s \<Rightarrow> Inr s)"

definition display_path :: "(string \<Rightarrow> exn + URL) \<Rightarrow> PageResult \<Rightarrow> exn + string" where
  "display_path new_URL r =
     (let path = url r
      in try_catch
           (case new_URL (url r) of Inl e \<Rightarrow> Inl e | Inr u \<Rightarrow> Inr (pathname u))
           (\<lambda>e. Inr path))"

section \<open>The specification's scoring formula\<close>

text \<open>
  The specification's words, to compare with the loop: the total weight is the sum of the
  severity weights over all checks, the earned weight the same sum over the checks that
  pass, and the score their ratio times 100, rounded to the nearest integer, a tie away
  from zero, or 0 when the total is 0.
\<close>

definition spec_totalWeight :: "CheckResult list \<Rightarrow> int" where
  "spec_totalWeight cs = sum_list (map (\<lambda>c. weights (severity (c_check c))) cs)"

definition spec_earnedWeight :: "CheckResult list \<Rightarrow> int" where
  "spec_earnedWeight cs =
     sum_list (map (\<lambda>c. weights (severity (c_check c))) (filter (\<lambda>c. pass (c_result c)) cs))"

definition round_half_away_from_zero :: "real \<Rightarrow> int" where
  "round_half_away_from_zero x = (if x \<ge> 0 then \<lfloor>x + 1 / 2\<rfloor> else - \<lfloor>- x + 1 / 2\<rfloor>)"

definition spec_score :: "CheckResult list \<Rightarrow> int" where
  "spec_score cs =
     (if spec_totalWeight cs > 0
      then round_half_away_from_zero
             (100 * real_of_int (spec_earnedWeight cs) / real_of_int (spec_totalWeight cs))
      else 0)"

text \<open>The page of the specification's end-to-end example; it has no \<open>content\<close> field.\<close>

definition e2e_headers :: HeaderMap where
  "e2e_headers =
    [(''strict-transport-security'', ''max-age=31536000''),
     (''content-security-policy'', ''default-src '' @ [CHR 0x27] @ ''self'' @ [CHR 0x27]),
     (''x-frame-options'', ''DENY''),
     (''x-content-type-options'', ''nosniff''),
     (''referrer-policy'', ''no-referrer'')]"

definition e2e_page :: Page where
  "e2e_page =
     \<lparr>page_url = Some ''https://a.test/'', page_headers = Some e2e_headers,
      page_content = None\<rparr>"

text \<open>The urls of the entries that are kept: the entry is there, and its url is a non-empty string.\<close>

definition truthy_url :: "Page option \<Rightarrow> string option" where
  "truthy_url p =
     (case p of
        None \<Rightarrow> None
      | Some page \<Rightarrow>
          (case page_url page of None \<Rightarrow> None | Some u \<Rightarrow> if u = [] then None else Some u))"

text \<open>Inputs on which the theorems below are run.\<close>

definition long_csp :: string where
  "long_csp = ''default-src https://a.test; script-src https://cdn.a.test; style-src https://cdn.a.test; img-src *''"

definition sample_pages :: "Page option list" where
  "sample_pages =
    [Some e2e_page, None,
     Some \<lparr>page_url = Some [], page_headers = Some e2e_headers, page_content = None\<rparr>,
     Some \<lparr>page_url = None, page_headers = None, page_content = Some ''<html></html>''\<rparr>,
     Some \<lparr>page_url = Some ''http://b.test/x'', page_headers = None,
           page_content = Some ''<html></html>''\<rparr>]"

section \<open>Evaluating the model on literals\<close>

lemma lower_names:
  "toLowerCase ''strict-transport-security'' = ''strict-transport-security''"
  "toLowerCase ''content-security-policy'' = ''content-security-policy''"
  "toLowerCase ''x-frame-options'' = ''x-frame-options''"
  "toLowerCase ''x-content-type-options'' = ''x-content-type-options''"
  "toLowerCase ''referrer-policy'' = ''referrer-policy''"
  "toLowerCase ''permissions-policy'' = ''permissions-policy''"
  "toLowerCase ''feature-policy'' = ''feature-policy''"
  "toLowerCase ''x-xss-protection'' = ''x-xss-protection''"
  "toLowerCase ''cross-origin-opener-policy'' = ''cross-origin-opener-policy''"
  "toLowerCase ''cross-origin-resource-policy'' = ''cross-origin-resource-policy''"
  "toLowerCase ''nosniff'' = ''nosniff''"
  by code_simp+

lemma lower_mixed:
  "toLowerCase ''X-Frame-Options'' = ''x-frame-options''"
  "toLowerCase ''X-FRAME-OPTIONS'' = ''x-frame-options''"
  "toLowerCase ''Server'' = ''server''"
  "toLowerCase ''NoSniff'' = ''nosniff''"
  "toLowerCase ''Strict-Transport-Security'' = ''strict-transport-security''"
  "toLowerCase ''Content-Security-Policy'' = ''content-security-policy''"
  "toLowerCase ''X-Content-Type-Options'' = ''x-content-type-options''"
  by code_simp+

lemma digit_chars:
  "char_of (48 :: nat) = CHR ''0''" "char_of (49 :: nat) = CHR ''1''"
  "char_of (50 :: nat) = CHR ''2''" "char_of (51 :: nat) = CHR ''3''"
  "char_of (52 :: nat) = CHR ''4''" "char_of (53 :: nat) = CHR ''5''"
  "char_of (54 :: nat) = CHR ''6''" "char_of (55 :: nat) = CHR ''7''"
  "char_of (56 :: nat) = CHR ''8''" "char_of (57 :: nat) = CHR ''9''"
  by code_simp+

lemma Number_toString_digit: "n < 10 \<Longrightarrow> Number_toString n = [char_of (48 + n)]"
  by (simp add: Number_toString.simps)

lemma Number_toString_more:
  "\<not> n < 10 \<Longrightarrow> Number_toString n = Number_toString (n div 10) @ [char_of (48 + n mod 10)]"
  by (subst Number_toString.simps) simp

lemma max_age_examples:
  "max_age_of ''max-age=3600'' = 3600"
  "max_age_of ''max-age=63072000'' = 63072000"
  "max_age_of ''max-age=31536000'' = 31536000"
  "max_age_of ''includeSubDomains'' = 0"
  "max_age_of ''max-age=0; max-age=63072000'' = 0"
  "max_age_of ''Max-Age=63072000'' = 0"
  by (simp_all add: max_age_of_def isDigit_def js_or_def falsy_def parseInt_def)

lemma find_map_comp: "find P (map f xs) = map_option f (find (\<lambda>x. P (f x)) xs)"
  by (induction xs) simp_all

lemma find_upt_Suc:
  "find P [0..<Suc n] = (if P 0 then Some 0 else map_option Suc (find (\<lambda>i. P (Suc i)) [0..<n]))"
proof -
  have "[0..<Suc n] = 0 # map Suc [0..<n]"
    by (subst upt_conv_Cons) (simp_all add: map_Suc_upt del: upt_Suc)
  then show ?thesis
    by (simp add: find_map_comp del: upt_Suc)
qed

lemma match_max_age_first:
  "match_max_age s =
     map_option (\<lambda>i. takeWhile isDigit (drop (i + 8) s)) (find (max_age_at s) [0..<length s])"
proof (induction s)
  case Nil
  show ?case by simp
next
  case (Cons c cs)
  have d: "drop (Suc i + 8) (c # cs) = drop (i + 8) cs" for i
    by (simp only: add_Suc drop_Suc_Cons)
  have shift: "max_age_at (c # cs) (Suc i) = max_age_at cs i" for i
    by (simp only: max_age_at_def add_Suc drop_Suc_Cons)
  have at0: "max_age_at (c # cs) 0 \<longleftrightarrow>
      take 8 (c # cs) = ''max-age='' \<and> takeWhile isDigit (drop 8 (c # cs)) \<noteq> []"
    by (simp only: max_age_at_def drop_0 add_0)
  have step: "match_max_age (c # cs) =
      (if max_age_at (c # cs) 0 then Some (takeWhile isDigit (drop 8 (c # cs))) else match_max_age cs)"
    by (simp only: match_max_age.simps Let_def at0)
  have len: "[0..<length (c # cs)] = [0..<Suc (length cs)]"
    by simp
  show ?case
  proof (cases "max_age_at (c # cs) 0")
    case True
    then have "find (max_age_at (c # cs)) [0..<length (c # cs)] = Some 0"
      unfolding len find_upt_Suc by simp
    then show ?thesis
      using True by (simp only: step if_True option.map add_0)
  next
    case False
    then have "find (max_age_at (c # cs)) [0..<length (c # cs)]
        = map_option Suc (find (max_age_at cs) [0..<length cs])"
      unfolding len find_upt_Suc shift by simp
    then show ?thesis
      using False by (simp only: step if_False Cons.IH option.map_comp comp_def d)
  qed
qed

lemma parseInt_snoc: "parseInt (ds @ [d]) = 10 * parseInt ds + (of_char d - 48)"
  by (simp add: parseInt_def)

lemma includes_str_sublist: "includes_str s t \<longleftrightarrow> sublist t s"
  by (induction s) (simp_all add: sublist_Cons_right)

lemma includes_str_iff: "includes_str s t \<longleftrightarrow> (\<exists>ps ss. s = ps @ t @ ss)"
  by (simp add: includes_str_sublist sublist_def)

lemmas check_defs =
  check_HTTPS_def check_Strict_Transport_Security_def check_Content_Security_Policy_def
  check_X_Frame_Options_def check_X_Content_Type_Options_def check_Referrer_Policy_def
  check_Permissions_Policy_def check_X_XSS_Protection_def
  check_Cross_Origin_Opener_Policy_def check_Cross_Origin_Resource_Policy_def

section \<open>The weight loop computes the two sums\<close>

lemma weight_loop_sums:
  "weight_loop cs (t, e) = (t + spec_totalWeight cs, e + spec_earnedWeight cs)"
  by (induction cs arbitrary: t e) (simp_all add: spec_totalWeight_def spec_earnedWeight_def Let_def)

lemma weights_cases: "weights s = 30 \<or> weights s = 20 \<or> weights s = 15 \<or> weights s = 10"
  by (cases s) (simp_all add: weights_def)

lemma weights_pos: "0 < weights s"
  using weights_cases [of s] by auto

lemma weights_dvd: "5 dvd weights s"
  using weights_cases [of s] by auto

lemma earned_dvd: "5 dvd spec_earnedWeight cs"
  by (induction cs) (simp_all add: spec_earnedWeight_def weights_dvd)

lemma earned_nonneg: "0 \<le> spec_earnedWeight cs"
  unfolding spec_earnedWeight_def
  by (rule sum_list_nonneg) (use weights_pos in \<open>auto simp: less_imp_le\<close>)

lemma earned_le_total: "spec_earnedWeight cs \<le> spec_totalWeight cs"
proof (induction cs)
  case Nil
  show ?case by (simp add: spec_earnedWeight_def spec_totalWeight_def)
next
  case (Cons c cs)
  have "0 < weights (severity (c_check c))" by (rule weights_pos)
  with Cons show ?case by (simp add: spec_earnedWeight_def spec_totalWeight_def)
qed

lemma total_catalog:
  assumes "map c_check cs = CHECKS"
  shows "spec_totalWeight cs = 185"
proof -
  have "spec_totalWeight cs = sum_list (map (\<lambda>k. weights (severity k)) (map c_check cs))"
    by (simp add: spec_totalWeight_def comp_def)
  also have "\<dots> = 185"
    unfolding assms by (simp add: CHECKS_def weights_def)
  finally show ?thesis .
qed

lemma run_checks_catalog: "map c_check (run_checks hs html) = CHECKS"
  by (simp add: run_checks_def comp_def)

section \<open>Rounding on the catalog\<close>

text \<open>
  The catalog's total weight is 185 and every earned weight is a multiple of 5, so the
  exact score \<open>100 * e / 185\<close> is \<open>100 * m / 37\<close>: it is never halfway between two
  integers, and stays at least \<open>1 / 74\<close> away from every such point. The two roundings
  of the double arithmetic move it by far less.
\<close>

lemma floor_half_stable:
  fixes m :: int and b :: real
  assumes "\<bar>b - 100 * real_of_int m / 37\<bar> < 1 / 74"
  shows "\<lfloor>b + 1 / 2\<rfloor> = \<lfloor>100 * real_of_int m / 37 + 1 / 2\<rfloor>"
proof -
  define k where "k = (200 * m + 37) div 74"
  define r where "r = (200 * m + 37) mod 74"
  have split: "200 * m + 37 = 74 * k + r"
    by (simp add: k_def r_def)
  have "r = 200 * m + 37 - 74 * k"
    using split by simp
  then have "odd r"
    by simp
  then have "r \<noteq> 0"
    by (intro notI) simp
  moreover have "0 \<le> r" "r < 74"
    by (simp_all add: r_def)
  ultimately have r: "1 \<le> r" "r \<le> 73"
    by linarith+
  have "real_of_int (200 * m + 37) = real_of_int (74 * k + r)"
    using split by simp
  then have half: "100 * real_of_int m / 37 + 1 / 2 = real_of_int k + real_of_int r / 74"
    by (simp add: field_simps)
  have lo: "real_of_int k + 1 / 74 \<le> 100 * real_of_int m / 37 + 1 / 2"
    using r(1) by (simp add: half)
  have hi: "100 * real_of_int m / 37 + 1 / 2 \<le> real_of_int k + 73 / 74"
    using r(2) by (simp add: half)
  have 1: "\<lfloor>100 * real_of_int m / 37 + 1 / 2\<rfloor> = k"
    using lo hi by (intro floor_unique) linarith+
  have 2: "\<lfloor>b + 1 / 2\<rfloor> = k"
    using lo hi assms by (intro floor_unique) linarith+
  show ?thesis
    by (simp add: 1 2)
qed

lemma double_rounding_normal:
  assumes "double_rounding fl" and "1 / 74 \<le> x" and "x \<le> 200"
  shows "\<bar>fl x - x\<bar> \<le> x / 2 ^ 53"
proof -
  have "(1::real) / 2 ^ 1022 \<le> 1 / 74"
    by simp
  then have lo: "1 / 2 ^ 1022 \<le> \<bar>x\<bar>"
    using assms(2) by linarith
  have "(200::real) \<le> 2 ^ 1023"
    by simp
  then have hi: "\<bar>x\<bar> \<le> 2 ^ 1023"
    using assms(2,3) by linarith
  have "\<bar>fl x - x\<bar> \<le> \<bar>x\<bar> / 2 ^ 53"
    using assms(1) lo hi unfolding double_rounding_def by blast
  moreover have "\<bar>x\<bar> = x"
    using assms(2) by linarith
  ultimately show ?thesis
    by simp
qed

lemma double_rounding_exact: "double_rounding exact"
  by (simp add: double_rounding_def exact_def)

lemma quotient_product_error:
  fixes e :: int
  assumes fl: "double_rounding fl" and e: "0 \<le> e" "e \<le> 185" "5 dvd e"
  shows "\<bar>fl (fl (real_of_int e / 185) * 100) - 100 * real_of_int e / 185\<bar> < 1 / 74"
proof (cases "e = 0")
  case True
  have "fl 0 = 0"
    using fl by (simp add: double_rounding_def)
  then show ?thesis
    by (simp add: True)
next
  case False
  with e have e5: "5 \<le> e"
    by presburger
  define u :: real where "u = 1 / 2 ^ 53"
  define x :: real where "x = real_of_int e / 185"
  define a where "a = fl x"
  define y where "y = a * 100"
  have u: "0 < u" "u \<le> 1 / 100000"
    by (simp_all add: u_def)
  have x: "1 / 37 \<le> x" "x \<le> 1"
    using e5 e(2) by (simp_all add: x_def)
  have "\<bar>a - x\<bar> \<le> x / 2 ^ 53"
    unfolding a_def using fl x by (intro double_rounding_normal) linarith+
  then have ax: "\<bar>a - x\<bar> \<le> x * u"
    by (simp add: u_def)
  have xu: "x * u \<le> u"
    using x(2) u(1) by (simp add: mult_left_le_one_le)
  have a: "1 / 74 \<le> a" "a \<le> 2"
    using ax xu x u by linarith+
  have y: "1 / 74 \<le> y" "y \<le> 200"
    using a by (simp_all add: y_def)
  have "\<bar>fl y - y\<bar> \<le> y / 2 ^ 53"
    using fl y by (rule double_rounding_normal)
  then have "\<bar>fl y - y\<bar> \<le> y * u"
    by (simp add: u_def)
  moreover have "y * u \<le> 200 * u"
    using y(2) u(1) by simp
  ultimately have 1: "\<bar>fl y - y\<bar> \<le> 200 * u"
    by linarith
  have 2: "\<bar>y - 100 * x\<bar> \<le> 100 * u"
    using ax xu by (simp add: y_def)
  have "\<bar>fl y - 100 * x\<bar> \<le> 300 * u"
    using 1 2 by linarith
  then have "\<bar>fl y - 100 * x\<bar> < 1 / 74"
    using u by linarith
  then show ?thesis
    by (simp add: y_def a_def x_def)
qed

lemma floor_half_int:
  fixes e :: int
  shows "\<lfloor>100 * real_of_int e / 185 + 1 / 2\<rfloor> = (200 * e + 185) div 370"
proof -
  have "100 * real_of_int e / 185 + 1 / 2 = real_of_int (200 * e + 185) / real_of_int 370"
    by simp
  then show ?thesis
    by (simp only: floor_divide_of_int_eq)
qed

lemma weighted_score_catalog:
  assumes fl: "double_rounding fl" and cat: "map c_check cs = CHECKS"
  shows "weighted_score fl cs = (200 * spec_earnedWeight cs + 185) div 370"
proof -
  define e where "e = spec_earnedWeight cs"
  have t: "spec_totalWeight cs = 185"
    using cat by (rule total_catalog)
  have e: "0 \<le> e" "e \<le> 185" "5 dvd e"
    using earned_nonneg [of cs] earned_le_total [of cs] earned_dvd [of cs] t
    by (simp_all add: e_def)
  then obtain m where m: "e = 5 * m"
    by (auto elim: dvdE)
  have "\<bar>fl (fl (real_of_int e / 185) * 100) - 100 * real_of_int e / 185\<bar> < 1 / 74"
    using fl e by (rule quotient_product_error)
  then have "\<bar>fl (fl (real_of_int e / 185) * 100) - 100 * real_of_int m / 37\<bar> < 1 / 74"
    by (simp add: m)
  then have "\<lfloor>fl (fl (real_of_int e / 185) * 100) + 1 / 2\<rfloor> = \<lfloor>100 * real_of_int m / 37 + 1 / 2\<rfloor>"
    by (rule floor_half_stable)
  also have "\<dots> = \<lfloor>100 * real_of_int e / 185 + 1 / 2\<rfloor>"
    by (simp add: m)
  also have "\<dots> = (200 * e + 185) div 370"
    by (rule floor_half_int)
  finally have "Math_round (fl (fl (real_of_int e / 185) * 100)) = (200 * e + 185) div 370"
    unfolding Math_round_def .
  then show ?thesis
    by (simp add: weighted_score_def weight_loop_sums t e_def)
qed

lemma spec_score_catalog:
  assumes cat: "map c_check cs = CHECKS"
  shows "spec_score cs = (200 * spec_earnedWeight cs + 185) div 370"
proof -
  have t: "spec_totalWeight cs = 185"
    using cat by (rule total_catalog)
  have "0 \<le> 100 * real_of_int (spec_earnedWeight cs) / 185"
    using earned_nonneg [of cs] by simp
  then have "round_half_away_from_zero (100 * real_of_int (spec_earnedWeight cs) / 185)
      = \<lfloor>100 * real_of_int (spec_earnedWeight cs) / 185 + 1 / 2\<rfloor>"
    unfolding round_half_away_from_zero_def by (rule if_P)
  also have "\<dots> = (200 * spec_earnedWeight cs + 185) div 370"
    by (rule floor_half_int)
  finally show ?thesis
    unfolding spec_score_def t by simp
qed

section \<open>The score\<close>

text \<open>
  Claim C1. For every list of check results over the catalog, whatever the outcomes, the
  score that the loop and \<open>Math.round\<close> compute in double arithmetic is the
  specification's: 100 times the earned weight over the total weight, rounded to the
  nearest integer with a tie away from zero, and 0 for a total of 0; the weights are
  critical 30, high 20, medium 15 and low 10, and the loop's two counters are the two sums.
  On any list whose total weight is 0 the score is 0.
\<close>

theorem weighted_score_matches_spec:
  assumes "double_rounding fl" and "map c_check cs = CHECKS"
  shows "weighted_score fl cs = spec_score cs
    \<and> weight_loop cs (0, 0) = (spec_totalWeight cs, spec_earnedWeight cs)
    \<and> weights critical = 30 \<and> weights high = 20 \<and> weights medium = 15 \<and> weights low = 10
    \<and> (spec_totalWeight cs' \<le> 0 \<longrightarrow> weighted_score fl cs' = 0)"
  using assms
  by (simp add: weighted_score_catalog spec_score_catalog weight_loop_sums weights_def)
     (simp add: weighted_score_def weight_loop_sums)

theorem weighted_score_matches_spec_witness:
  "double_rounding exact
   \<and> map c_check (run_checks [(''X-Frame-Options'', ''DENY'')] []) = CHECKS
   \<and> weight_loop (run_checks [(''X-Frame-Options'', ''DENY'')] []) (0, 0) = (185, 50)
   \<and> weighted_score exact (run_checks [(''X-Frame-Options'', ''DENY'')] []) = 27
   \<and> spec_score (run_checks [(''X-Frame-Options'', ''DENY'')] []) = 27
   \<and> spec_totalWeight [] \<le> 0
   \<and> weighted_score exact [] = 0"
proof -
  let ?cs = "run_checks [(''X-Frame-Options'', ''DENY'')] []"
  have e: "spec_earnedWeight ?cs = 50"
    by (simp add: spec_earnedWeight_def run_checks_def CHECKS_def check_defs findHeader_def
        lower_names lower_mixed js_or_def falsy_def weights_def)
  have t: "spec_totalWeight ?cs = 185"
    by (rule total_catalog) (rule run_checks_catalog)
  have s: "spec_score ?cs = 27"
    by (simp add: spec_score_catalog run_checks_catalog e)
  show ?thesis
    using weighted_score_matches_spec [OF double_rounding_exact run_checks_catalog,
        of "[(''X-Frame-Options'', ''DENY'')]" "[]" "[]"]
    by (simp add: double_rounding_exact run_checks_catalog e t s) (simp add: spec_totalWeight_def)
qed

section \<open>The grade\<close>

text \<open>
  Claim C2. The grade of an integer score is A from 90 up, B from 70 to 89, C from 50 to
  69 and F below 50; so 90 is an A, 89 and 70 are a B, 69 and 50 are a C, and 49 is an F.
\<close>

theorem gradeFromScore_thresholds:
  "(gradeFromScore s = ''A'' \<longleftrightarrow> 90 \<le> s)
   \<and> (gradeFromScore s = ''B'' \<longleftrightarrow> 70 \<le> s \<and> s < 90)
   \<and> (gradeFromScore s = ''C'' \<longleftrightarrow> 50 \<le> s \<and> s < 70)
   \<and> (gradeFromScore s = ''F'' \<longleftrightarrow> s < 50)
   \<and> gradeFromScore 90 = ''A'' \<and> gradeFromScore 89 = ''B'' \<and> gradeFromScore 70 = ''B''
   \<and> gradeFromScore 69 = ''C'' \<and> gradeFromScore 50 = ''C'' \<and> gradeFromScore 49 = ''F''"
  by (simp add: gradeFromScore_def)

section \<open>Header lookup\<close>

lemma findHeader_loop_find:
  "findHeader_loop hs lower = map_option snd (find (\<lambda>(k, v). toLowerCase k = lower) hs)"
  by (induction hs lower rule: findHeader_loop.induct) simp_all

lemma findHeader_loop_None:
  "findHeader_loop hs lower = None \<longleftrightarrow> (\<forall>(k, v) \<in> set hs. toLowerCase k \<noteq> lower)"
  by (induction hs lower rule: findHeader_loop.induct) auto

lemma findHeader_loop_first:
  assumes "\<forall>(k', v') \<in> set pre. toLowerCase k' \<noteq> lower" and "toLowerCase k = lower"
  shows "findHeader_loop (pre @ (k, v) # post) lower = Some v"
  using assms by (induction pre lower rule: findHeader_loop.induct) auto

text \<open>
  Claim C5. For every header object and every name, the lookup gives the value of the
  first entry, in iteration order, whose key lowercased equals the name lowercased; it
  gives \<open>undefined\<close>, a value and not an error, exactly when no key matches; an entry that
  matches after entries that do not is the one returned, whatever follows it; and looking
  up \<open>X-Frame-Options\<close> in \<open>{"x-frame-options": "DENY"}\<close> gives \<open>DENY\<close>.
\<close>

theorem findHeader_first_match:
  "findHeader hs nm = map_option snd (find (\<lambda>(k, v). toLowerCase k = toLowerCase nm) hs)
   \<and> (findHeader hs nm = None \<longleftrightarrow> (\<forall>(k, v) \<in> set hs. toLowerCase k \<noteq> toLowerCase nm))
   \<and> ((\<forall>(k', v') \<in> set pre. toLowerCase k' \<noteq> toLowerCase nm) \<and> toLowerCase k = toLowerCase nm
        \<longrightarrow> findHeader (pre @ (k, v) # post) nm = Some v)
   \<and> findHeader [(''x-frame-options'', ''DENY'')] ''X-Frame-Options'' = Some ''DENY''"
proof -
  have 1: "findHeader hs nm = map_option snd (find (\<lambda>(k, v). toLowerCase k = toLowerCase nm) hs)"
    by (simp add: findHeader_def findHeader_loop_find)
  have 2: "findHeader hs nm = None \<longleftrightarrow> (\<forall>(k, v) \<in> set hs. toLowerCase k \<noteq> toLowerCase nm)"
    by (simp add: findHeader_def findHeader_loop_None)
  have 3: "(\<forall>(k', v') \<in> set pre. toLowerCase k' \<noteq> toLowerCase nm) \<and> toLowerCase k = toLowerCase nm
        \<longrightarrow> findHeader (pre @ (k, v) # post) nm = Some v"
    by (simp add: findHeader_def findHeader_loop_first)
  have 4: "findHeader [(''x-frame-options'', ''DENY'')] ''X-Frame-Options'' = Some ''DENY''"
    by (simp add: findHeader_def lower_names lower_mixed)
  show ?thesis
    using 1 2 3 4 by blast
qed

theorem findHeader_first_match_witness:
  "toLowerCase ''Server'' \<noteq> toLowerCase ''X-Frame-Options''
   \<and> toLowerCase ''X-FRAME-OPTIONS'' = toLowerCase ''X-Frame-Options''
   \<and> findHeader ([(''Server'', ''nginx'')] @ (''X-FRAME-OPTIONS'', ''SAMEORIGIN'')
         # [(''x-frame-options'', ''DENY'')]) ''X-Frame-Options'' = Some ''SAMEORIGIN''
   \<and> findHeader [(''Server'', ''nginx'')] ''X-Frame-Options'' = None"
  using findHeader_first_match [of "[(''Server'', ''nginx'')]" "''X-Frame-Options''"
      "[(''Server'', ''nginx'')]" "''X-FRAME-OPTIONS''" "''SAMEORIGIN''"
      "[(''x-frame-options'', ''DENY'')]"]
  by (simp add: lower_mixed)

section \<open>The checks\<close>

text \<open>
  A header with the empty string as its value is found by the lookup, and the guard
  \<open>if (!val)\<close> then reports it as missing.
\<close>

theorem sts_empty_value_fails:
  "findHeader [(''strict-transport-security'', [])] ''strict-transport-security'' = Some []
   \<and> \<not> pass (check_Strict_Transport_Security [(''strict-transport-security'', [])] [])"
  by (simp add: check_Strict_Transport_Security_def findHeader_def lower_names)

text \<open>
  Claim C6, amended. For every header object, the Strict-Transport-Security check passes
  exactly when the lookup finds a value that is not the empty string, whatever that value
  is. The outcome then shows the value; when the max-age (the digits of the first match of
  \<open>max-age=<digits>\<close>, and 0 when there is no match) is below 31536000 it carries the
  advisory detail, and from 31536000 up it carries no detail. The first match is the one at
  the least position where the pattern matches, and its digits are the longest run there.
\<close>

theorem strict_transport_security_outcome:
  "(pass (check_Strict_Transport_Security hs html) \<longleftrightarrow>
      (\<exists>v. findHeader hs ''strict-transport-security'' = Some v \<and> v \<noteq> []))
   \<and> (findHeader hs ''strict-transport-security'' = Some val \<and> val \<noteq> [] \<longrightarrow>
        value_field (check_Strict_Transport_Security hs html) = Some val
        \<and> (max_age_of val < 31536000 \<longrightarrow>
             detail (check_Strict_Transport_Security hs html) =
               Some (''max-age='' @ Number_toString (max_age_of val) @ '' (recommend >= 31536000)''))
        \<and> (31536000 \<le> max_age_of val \<longrightarrow>
             detail (check_Strict_Transport_Security hs html) = None))
   \<and> (match_max_age val = None \<longrightarrow> max_age_of val = 0)
   \<and> (match_max_age val = Some d \<longrightarrow> max_age_of val = parseInt d)
   \<and> match_max_age val =
       map_option (\<lambda>i. takeWhile isDigit (drop (i + 8) val)) (find (max_age_at val) [0..<length val])"
proof -
  have 1: "pass (check_Strict_Transport_Security hs html) \<longleftrightarrow>
      (\<exists>v. findHeader hs ''strict-transport-security'' = Some v \<and> v \<noteq> [])"
    by (simp add: check_Strict_Transport_Security_def Let_def split: option.splits)
  have 2: "findHeader hs ''strict-transport-security'' = Some val \<and> val \<noteq> [] \<longrightarrow>
        value_field (check_Strict_Transport_Security hs html) = Some val
        \<and> (max_age_of val < 31536000 \<longrightarrow>
             detail (check_Strict_Transport_Security hs html) =
               Some (''max-age='' @ Number_toString (max_age_of val) @ '' (recommend >= 31536000)''))
        \<and> (31536000 \<le> max_age_of val \<longrightarrow>
             detail (check_Strict_Transport_Security hs html) = None)"
    by (simp add: check_Strict_Transport_Security_def Let_def)
  have 3: "match_max_age val = None \<longrightarrow> max_age_of val = 0"
    by (simp add: max_age_of_def js_or_def falsy_def parseInt_def)
  have 4: "match_max_age val = Some d \<longrightarrow> max_age_of val = parseInt d"
    by (simp add: max_age_of_def js_or_def falsy_def parseInt_def)
  show ?thesis
    using 1 2 3 4 match_max_age_first [of val] by blast
qed

theorem strict_transport_security_outcome_witness:
  "findHeader [(''Strict-Transport-Security'', ''max-age=3600'')] ''strict-transport-security''
     = Some ''max-age=3600''
   \<and> pass (check_Strict_Transport_Security [(''Strict-Transport-Security'', ''max-age=3600'')] [])
   \<and> max_age_of ''max-age=3600'' < 31536000
   \<and> detail (check_Strict_Transport_Security [(''Strict-Transport-Security'', ''max-age=3600'')] [])
       = Some ''max-age=3600 (recommend >= 31536000)''
   \<and> match_max_age ''max-age=3600'' = Some ''3600''
   \<and> max_age_of ''max-age=3600'' = parseInt ''3600''
   \<and> findHeader [(''strict-transport-security'', ''max-age=63072000'')] ''strict-transport-security''
     = Some ''max-age=63072000''
   \<and> 31536000 \<le> max_age_of ''max-age=63072000''
   \<and> pass (check_Strict_Transport_Security [(''strict-transport-security'', ''max-age=63072000'')] [])
   \<and> detail (check_Strict_Transport_Security [(''strict-transport-security'', ''max-age=63072000'')] [])
       = None
   \<and> match_max_age ''includeSubDomains'' = None
   \<and> max_age_of ''includeSubDomains'' = 0
   \<and> match_max_age ''max-age=0; max-age=63072000'' = Some ''0''
   \<and> max_age_of ''max-age=0; max-age=63072000'' = 0"
proof -
  have f: "findHeader [(''Strict-Transport-Security'', ''max-age=3600'')] ''strict-transport-security''
     = Some ''max-age=3600''"
    by (simp add: findHeader_def lower_names lower_mixed)
  have g: "findHeader [(''strict-transport-security'', ''max-age=63072000'')] ''strict-transport-security''
     = Some ''max-age=63072000''"
    by (simp add: findHeader_def lower_names)
  have n: "Number_toString 3600 = ''3600''"
    by (simp add: Number_toString_digit Number_toString_more digit_chars)
  show ?thesis
    using strict_transport_security_outcome [of "[(''Strict-Transport-Security'', ''max-age=3600'')]" "[]"
        "''max-age=3600''" "''3600''"]
      strict_transport_security_outcome [of "[(''strict-transport-security'', ''max-age=63072000'')]" "[]"
        "''max-age=63072000''" "''63072000''"]
      strict_transport_security_outcome [of "[]" "[]" "''includeSubDomains''" "[]"]
      strict_transport_security_outcome [of "[]" "[]" "''max-age=0; max-age=63072000''" "''0''"]
    by (simp add: f g n max_age_examples isDigit_def parseInt_def max_age_at_def)
qed

theorem csp_empty_value_fails:
  "findHeader [(''content-security-policy'', [])] ''content-security-policy'' = Some []
   \<and> \<not> pass (check_Content_Security_Policy [(''content-security-policy'', [])] [])"
  by (simp add: check_Content_Security_Policy_def findHeader_def lower_names)

text \<open>
  Claim C7, amended. For every header object, the Content-Security-Policy check passes
  exactly when the lookup finds a value that is not the empty string. The outcome then
  shows the value itself when it has at most 80 characters and its first 80 characters
  followed by \<open>...\<close> when it has more, and it carries the advisory detail exactly when
  \<open>unsafe-inline\<close> or \<open>unsafe-eval\<close> occurs in the value, which does not make it fail.
\<close>

theorem content_security_policy_outcome:
  "(pass (check_Content_Security_Policy hs html) \<longleftrightarrow>
      (\<exists>v. findHeader hs ''content-security-policy'' = Some v \<and> v \<noteq> []))
   \<and> (findHeader hs ''content-security-policy'' = Some val \<and> val \<noteq> [] \<longrightarrow>
        value_field (check_Content_Security_Policy hs html) =
          Some (if length val > 80 then take 80 val @ ''...'' else val)
        \<and> detail (check_Content_Security_Policy hs html) =
            (if (\<exists>ps ss. val = ps @ ''unsafe-inline'' @ ss) \<or> (\<exists>ps ss. val = ps @ ''unsafe-eval'' @ ss)
             then Some ''Contains unsafe-inline or unsafe-eval directives'' else None))"
proof -
  have 1: "pass (check_Content_Security_Policy hs html) \<longleftrightarrow>
      (\<exists>v. findHeader hs ''content-security-policy'' = Some v \<and> v \<noteq> [])"
    by (simp add: check_Content_Security_Policy_def Let_def split: option.splits)
  have 2: "findHeader hs ''content-security-policy'' = Some val \<and> val \<noteq> [] \<longrightarrow>
        value_field (check_Content_Security_Policy hs html) =
          Some (if length val > 80 then take 80 val @ ''...'' else val)
        \<and> detail (check_Content_Security_Policy hs html) =
            (if (\<exists>ps ss. val = ps @ ''unsafe-inline'' @ ss) \<or> (\<exists>ps ss. val = ps @ ''unsafe-eval'' @ ss)
             then Some ''Contains unsafe-inline or unsafe-eval directives'' else None)"
    by (simp add: check_Content_Security_Policy_def Let_def slice80_def includes_str_iff)
  show ?thesis
    using 1 2 by blast
qed

theorem content_security_policy_outcome_witness:
  "findHeader [(''Content-Security-Policy'', ''script-src unsafe-inline'')] ''content-security-policy''
     = Some ''script-src unsafe-inline''
   \<and> pass (check_Content_Security_Policy [(''Content-Security-Policy'', ''script-src unsafe-inline'')] [])
   \<and> value_field (check_Content_Security_Policy [(''Content-Security-Policy'', ''script-src unsafe-inline'')] [])
       = Some ''script-src unsafe-inline''
   \<and> detail (check_Content_Security_Policy [(''Content-Security-Policy'', ''script-src unsafe-inline'')] [])
       = Some ''Contains unsafe-inline or unsafe-eval directives''
   \<and> length long_csp = 98
   \<and> value_field (check_Content_Security_Policy [(''content-security-policy'', long_csp)] [])
       = Some ''default-src https://a.test; script-src https://cdn.a.test; style-src https://cdn...''
   \<and> detail (check_Content_Security_Policy [(''content-security-policy'', long_csp)] []) = None"
proof -
  have f: "findHeader [(''Content-Security-Policy'', ''script-src unsafe-inline'')] ''content-security-policy''
     = Some ''script-src unsafe-inline''"
    by (simp add: findHeader_def lower_names lower_mixed)
  have g: "findHeader [(''content-security-policy'', long_csp)] ''content-security-policy'' = Some long_csp"
    by (simp add: findHeader_def lower_names)
  have d: "detail (check_Content_Security_Policy [(''Content-Security-Policy'', ''script-src unsafe-inline'')] [])
       = Some ''Contains unsafe-inline or unsafe-eval directives''"
    by (simp add: check_Content_Security_Policy_def f)
  have l: "length long_csp = 98" "long_csp \<noteq> []"
    by (simp_all add: long_csp_def)
  have t: "take 80 long_csp = ''default-src https://a.test; script-src https://cdn.a.test; style-src https://cdn''"
    by (simp add: long_csp_def)
  have e: "detail (check_Content_Security_Policy [(''content-security-policy'', long_csp)] []) = None"
    by (simp add: check_Content_Security_Policy_def g l) (simp add: long_csp_def)
  show ?thesis
    using content_security_policy_outcome [of "[(''Content-Security-Policy'', ''script-src unsafe-inline'')]" "[]"
        "''script-src unsafe-inline''"]
      content_security_policy_outcome [of "[(''content-security-policy'', long_csp)]" "[]" long_csp]
    by (simp add: f g d l t e)
qed

text \<open>
  Claim C8. For every header object, the X-Content-Type-Options check passes if and only
  if the lookup finds a value whose lowercased form is exactly \<open>nosniff\<close>: it fails when the
  header is absent and for every other value that is present.
\<close>

theorem x_content_type_options_nosniff:
  "(pass (check_X_Content_Type_Options hs html) \<longleftrightarrow>
      (\<exists>val. findHeader hs ''x-content-type-options'' = Some val \<and> toLowerCase val = ''nosniff''))
   \<and> pass (check_X_Content_Type_Options [(''X-Content-Type-Options'', ''NoSniff'')] html)
   \<and> \<not> pass (check_X_Content_Type_Options [(''X-Content-Type-Options'', ''Server'')] html)
   \<and> \<not> pass (check_X_Content_Type_Options [] html)"
proof -
  have "toLowerCase [] \<noteq> ''nosniff''"
    by (simp add: toLowerCase_def)
  then have "pass (check_X_Content_Type_Options hs html) \<longleftrightarrow>
      (\<exists>val. findHeader hs ''x-content-type-options'' = Some val \<and> toLowerCase val = ''nosniff'')"
    by (auto simp: check_X_Content_Type_Options_def Let_def split: option.splits)
  moreover have "pass (check_X_Content_Type_Options [(''X-Content-Type-Options'', ''NoSniff'')] html)"
    by (simp add: check_X_Content_Type_Options_def findHeader_def lower_names lower_mixed)
  moreover have "\<not> pass (check_X_Content_Type_Options [(''X-Content-Type-Options'', ''Server'')] html)"
    by (simp add: check_X_Content_Type_Options_def findHeader_def lower_names lower_mixed)
  moreover have "\<not> pass (check_X_Content_Type_Options [] html)"
    by (simp add: check_X_Content_Type_Options_def findHeader_def)
  ultimately show ?thesis
    by blast
qed

section \<open>Aggregation\<close>

lemma length_run_checks: "length (run_checks hs html) = 10"
  by (simp add: run_checks_def CHECKS_def)

lemma page_result_counts:
  "passCount (page_result fl u hs html) + failCount (page_result fl u hs html) = 10"
  by (simp add: page_result_def Let_def sum_length_filter_compl length_run_checks)

lemma score_catalog_bounds:
  fixes e :: int
  assumes "0 \<le> e" and "e \<le> 185"
  shows "0 \<le> (200 * e + 185) div 370" and "(200 * e + 185) div 370 \<le> 100"
proof -
  show "0 \<le> (200 * e + 185) div 370"
    using assms(1) by (simp add: pos_imp_zdiv_nonneg_iff)
  have "(200 * e + 185) div 370 \<le> (200 * 185 + 185) div 370"
    using assms(2) by (intro zdiv_mono1) simp_all
  then show "(200 * e + 185) div 370 \<le> 100"
    by simp
qed

lemma page_result_score:
  assumes "double_rounding fl"
  shows "score (page_result fl u hs html) = (200 * spec_earnedWeight (run_checks hs html) + 185) div 370"
  using assms by (simp add: page_result_def Let_def weighted_score_catalog run_checks_catalog)

lemma page_result_score_bounds:
  assumes "double_rounding fl"
  shows "0 \<le> score (page_result fl u hs html) \<and> score (page_result fl u hs html) \<le> 100"
proof -
  let ?cs = "run_checks hs html"
  have "spec_totalWeight ?cs = 185"
    by (rule total_catalog) (rule run_checks_catalog)
  then have "0 \<le> spec_earnedWeight ?cs" "spec_earnedWeight ?cs \<le> 185"
    using earned_nonneg [of ?cs] earned_le_total [of ?cs] by simp_all
  then show ?thesis
    unfolding page_result_score [OF assms] by (intro conjI score_catalog_bounds)
qed

lemma results_loop_members:
  "r \<in> set (results_loop fl pages) \<Longrightarrow> \<exists>u hs html. r = page_result fl u hs html"
  by (induction fl pages rule: results_loop.induct)
     (auto simp: Let_def split: option.splits if_splits)

lemma results_members:
  assumes "r \<in> set (results fl data)"
  shows "\<exists>u hs html. r = page_result fl u hs html"
proof (cases data)
  case None
  with assms show ?thesis by (simp add: results_def)
next
  case (Some pages)
  with assms have "r \<in> set (results_loop fl pages)"
    by (simp add: results_def split: if_splits)
  then show ?thesis by (rule results_loop_members)
qed

lemma e2e_earned: "spec_earnedWeight (run_checks e2e_headers []) = 140"
  by (simp add: spec_earnedWeight_def run_checks_def CHECKS_def e2e_headers_def check_defs
      findHeader_def lower_names js_or_def falsy_def Let_def weights_def max_age_of_def
      isDigit_def parseInt_def)

lemma bare_earned: "spec_earnedWeight (run_checks [] html) = 30"
  by (simp add: spec_earnedWeight_def run_checks_def CHECKS_def check_defs
      findHeader_def js_or_def falsy_def Let_def weights_def)

lemma e2e_passing:
  "map (\<lambda>c. name (c_check c)) (filter (\<lambda>c. pass (c_result c)) (run_checks e2e_headers [])) =
     [''HTTPS'', ''Strict-Transport-Security'', ''Content-Security-Policy'', ''X-Frame-Options'',
      ''X-Content-Type-Options'', ''Referrer-Policy'']"
  by (simp add: run_checks_def CHECKS_def e2e_headers_def check_defs
      findHeader_def lower_names js_or_def falsy_def Let_def max_age_of_def
      isDigit_def parseInt_def)

lemma e2e_failing:
  "map (\<lambda>c. name (c_check c)) (filter (\<lambda>c. \<not> pass (c_result c)) (run_checks e2e_headers [])) =
     [''Permissions-Policy'', ''X-XSS-Protection'', ''Cross-Origin-Opener-Policy'',
      ''Cross-Origin-Resource-Policy'']"
  by (simp add: run_checks_def CHECKS_def e2e_headers_def check_defs
      findHeader_def lower_names js_or_def falsy_def Let_def max_age_of_def
      isDigit_def parseInt_def)

lemma e2e_weights: "weight_loop (run_checks e2e_headers []) (0, 0) = (185, 140)"
  by (simp add: weight_loop_sums e2e_earned total_catalog run_checks_catalog)

lemma e2e_results:
  "results fl (Some [Some e2e_page]) = [page_result fl ''https://a.test/'' e2e_headers []]"
  by (simp add: results_def e2e_page_def js_or_def falsy_def)

lemma sample_results:
  "results fl (Some sample_pages) =
     [page_result fl ''https://a.test/'' e2e_headers [],
      page_result fl ''http://b.test/x'' [] ''<html></html>'']"
  by (simp add: results_def sample_pages_def e2e_page_def js_or_def falsy_def)

text \<open>
  Claim C3. Whatever the input array, every page result the aggregator produces has
  \<open>passCount + failCount = 10\<close>, the size of the catalog, and a score from 0 to 100.
\<close>

theorem page_result_invariants:
  assumes "double_rounding fl"
  shows "\<forall>r \<in> set (results fl data).
           passCount r + failCount r = 10 \<and> length CHECKS = 10 \<and> 0 \<le> score r \<and> score r \<le> 100"
proof
  fix r
  assume "r \<in> set (results fl data)"
  then obtain u hs html where "r = page_result fl u hs html"
    using results_members by blast
  then show "passCount r + failCount r = 10 \<and> length CHECKS = 10 \<and> 0 \<le> score r \<and> score r \<le> 100"
    using page_result_counts [of fl u hs html] page_result_score_bounds [OF assms, of u hs html]
    by (simp add: CHECKS_def)
qed

theorem page_result_invariants_witness:
  "double_rounding exact
   \<and> map (\<lambda>r. (passCount r, failCount r, score r)) (results exact (Some sample_pages))
       = [(6, 4, 76), (1, 9, 16)]"
proof -
  have 1: "passCount (page_result exact ''http://b.test/x'' [] ''<html></html>'') = 1"
    by (simp add: page_result_def Let_def run_checks_def CHECKS_def check_defs findHeader_def
        js_or_def falsy_def)
  have 2: "score (page_result exact ''http://b.test/x'' [] ''<html></html>'') = 16"
    by (simp add: page_result_score [OF double_rounding_exact] bare_earned)
  have 3: "passCount (page_result exact ''https://a.test/'' e2e_headers []) = 6"
    using arg_cong [OF e2e_passing, of length] by (simp add: page_result_def Let_def)
  have 4: "score (page_result exact ''https://a.test/'' e2e_headers []) = 76"
    by (simp add: page_result_score [OF double_rounding_exact] e2e_earned)
  show ?thesis
    using page_result_invariants [OF double_rounding_exact, of "Some sample_pages"]
    by (simp add: double_rounding_exact sample_results 1 2 3 4)
qed

lemma url_page_result: "url (page_result fl u hs html) = u"
  by (simp add: page_result_def Let_def)

lemma results_loop_urls: "map url (results_loop fl pages) = List.map_filter truthy_url pages"
  by (induction fl pages rule: results_loop.induct)
     (simp_all add: List.map_filter_simps truthy_url_def url_page_result Let_def split: option.splits)

lemma results_loop_append:
  "results_loop fl (xs @ ys) = results_loop fl xs @ results_loop fl ys"
  by (induction fl xs rule: results_loop.induct) (simp_all add: Let_def split: option.splits)

lemma results_eq_loop: "results fl (Some pages) = results_loop fl pages"
  by (cases pages) (simp_all add: results_def)

lemma truthy_url_nonempty: "truthy_url p = Some u \<Longrightarrow> u \<noteq> []"
  by (auto simp: truthy_url_def split: option.splits if_splits)

text \<open>
  Claim C10. The urls of the page results are, in order, the urls of the entries that are
  there and whose url is a non-empty string; so every page result has a non-empty url, and
  an entry whose url is the empty string, like one whose url is missing and like a
  \<open>null\<close> entry, adds nothing to the results.
\<close>

theorem results_skip_falsy_url:
  "map url (results fl data) =
     (case data of None \<Rightarrow> [] | Some pages \<Rightarrow> List.map_filter truthy_url pages)
   \<and> (\<forall>r \<in> set (results fl data). url r \<noteq> [])
   \<and> results fl (Some (pre @ Some \<lparr>page_url = Some [], page_headers = h, page_content = c\<rparr> # post))
       = results fl (Some (pre @ post))
   \<and> results fl (Some (pre @ Some \<lparr>page_url = None, page_headers = h, page_content = c\<rparr> # post))
       = results fl (Some (pre @ post))
   \<and> results fl (Some (pre @ None # post)) = results fl (Some (pre @ post))"
proof -
  have 1: "map url (results fl data) =
     (case data of None \<Rightarrow> [] | Some pages \<Rightarrow> List.map_filter truthy_url pages)"
    by (cases data) (simp_all add: results_eq_loop results_loop_urls, simp add: results_def)
  have "[] \<notin> set (map url (results fl data))"
    unfolding 1 by (cases data) (auto simp: List.map_filter_def dest: truthy_url_nonempty)
  then have 2: "\<forall>r \<in> set (results fl data). url r \<noteq> []"
    by (metis image_eqI list.set_map)
  show ?thesis
    using 1 2 by (simp add: results_eq_loop results_loop_append)
qed

theorem results_skip_falsy_url_witness:
  "map url (results exact (Some sample_pages)) = [''https://a.test/'', ''http://b.test/x'']
   \<and> length sample_pages = 5
   \<and> results exact
        (Some ([] @ Some \<lparr>page_url = Some [], page_headers = None, page_content = None\<rparr> # []))
       = []"
  using results_skip_falsy_url [of exact "Some sample_pages" "[]" None None "[]"]
  by (simp add: sample_pages_def e2e_page_def List.map_filter_simps truthy_url_def results_def)

section \<open>The end-to-end example\<close>

text \<open>
  The catalog has three critical, one high, three medium and three low checks, a total
  weight of 185; the six checks that pass on the example page earn 140 of it.
\<close>

theorem e2e_not_165_of_215:
  "weight_loop (checks (page_result exact ''https://a.test/'' e2e_headers [])) (0, 0) = (185, 140)
   \<and> weight_loop (checks (page_result exact ''https://a.test/'' e2e_headers [])) (0, 0) \<noteq> (215, 165)
   \<and> score (page_result exact ''https://a.test/'' e2e_headers []) = 76
   \<and> score (page_result exact ''https://a.test/'' e2e_headers []) \<noteq> 77"
proof -
  let ?r = "page_result exact ''https://a.test/'' e2e_headers []"
  have c: "checks ?r = run_checks e2e_headers []"
    by (simp add: page_result_def Let_def)
  have s: "score ?r = 76"
    by (simp add: page_result_score [OF double_rounding_exact] e2e_earned)
  show ?thesis
    by (simp add: c e2e_weights s)
qed

text \<open>
  Claim C4, amended. On the page \<open>https://a.test/\<close> with the five headers of the example,
  the pipeline gives one page result with exactly 6 passing checks (HTTPS,
  Strict-Transport-Security, Content-Security-Policy, X-Frame-Options,
  X-Content-Type-Options, Referrer-Policy) and 4 failing checks (Permissions-Policy,
  X-XSS-Protection, Cross-Origin-Opener-Policy, Cross-Origin-Resource-Policy), an earned
  weight of 140 of a total weight of 185, the score 76 and the grade B.
\<close>

theorem e2e_pipeline:
  assumes "double_rounding fl"
  shows "results fl (Some [Some e2e_page]) = [page_result fl ''https://a.test/'' e2e_headers []]
   \<and> map (\<lambda>c. name (c_check c))
        (filter (\<lambda>c. pass (c_result c)) (checks (page_result fl ''https://a.test/'' e2e_headers [])))
      = [''HTTPS'', ''Strict-Transport-Security'', ''Content-Security-Policy'', ''X-Frame-Options'',
         ''X-Content-Type-Options'', ''Referrer-Policy'']
   \<and> map (\<lambda>c. name (c_check c))
        (filter (\<lambda>c. \<not> pass (c_result c)) (checks (page_result fl ''https://a.test/'' e2e_headers [])))
      = [''Permissions-Policy'', ''X-XSS-Protection'', ''Cross-Origin-Opener-Policy'',
         ''Cross-Origin-Resource-Policy'']
   \<and> passCount (page_result fl ''https://a.test/'' e2e_headers []) = 6
   \<and> failCount (page_result fl ''https://a.test/'' e2e_headers []) = 4
   \<and> weight_loop (checks (page_result fl ''https://a.test/'' e2e_headers [])) (0, 0) = (185, 140)
   \<and> score (page_result fl ''https://a.test/'' e2e_headers []) = 76
   \<and> gradeFromScore (score (page_result fl ''https://a.test/'' e2e_headers [])) = ''B''"
proof -
  let ?r = "page_result fl ''https://a.test/'' e2e_headers []"
  have c: "checks ?r = run_checks e2e_headers []"
    by (simp add: page_result_def Let_def)
  have p: "passCount ?r = 6"
    using arg_cong [OF e2e_passing, of length] by (simp add: page_result_def Let_def)
  have f: "failCount ?r = 4"
    using arg_cong [OF e2e_failing, of length] by (simp add: page_result_def Let_def)
  have s: "score ?r = 76"
    by (simp add: page_result_score [OF assms] e2e_earned)
  show ?thesis
    by (simp add: e2e_results c e2e_passing e2e_failing p f e2e_weights s gradeFromScore_def)
qed

theorem e2e_pipeline_witness:
  "double_rounding exact
   \<and> map score (results exact (Some [Some e2e_page])) = [76]
   \<and> map passCount (results exact (Some [Some e2e_page])) = [6]
   \<and> map failCount (results exact (Some [Some e2e_page])) = [4]"
  using e2e_pipeline [OF double_rounding_exact]
  by (simp add: double_rounding_exact)

section \<open>The path shown in the Markdown export\<close>

text \<open>
  Claim C9. For every page result and whatever the URL parser does with its url, deriving
  the path for the Markdown table completes normally: the path is the \<open>pathname\<close> of the
  parsed URL when the parser accepts the url, and the url itself, unchanged, when the
  parser throws.
\<close>

theorem display_path_never_throws:
  "display_path new_URL r =
     Inr (case new_URL (url r) of Inl e \<Rightarrow> url r | Inr u \<Rightarrow> pathname u)"
  by (simp add: display_path_def try_catch_def split: sum.splits)

end
